theory Spec2Isabelle
  imports Complex_Main "HOL-Library.Char_ord" "HOL-Library.List_Lexorder"
begin

section \<open>Album retrieval route (GetAlbum.ts)\<close>

text \<open>
  The route handler \<^verbatim>\<open>run\<close> of \<^verbatim>\<open>GET /album/:uuid\<close> and its helper
  \<^verbatim>\<open>parseSortOrder\<close>, embedded as HOL functions.

  Conventions of the embedding:
  \<^item> a JavaScript value of type \<^verbatim>\<open>string | null | undefined\<close> is a \<open>string option\<close>;
    \<open>None\<close> stands for both \<^verbatim>\<open>null\<close> and \<^verbatim>\<open>undefined\<close>, which the code never tells apart
    (it only tests them with \<^verbatim>\<open>!\<close> and \<^verbatim>\<open>||\<close>);
  \<^item> a string is a list of characters. The code only splits at the ASCII colon and compares
    with ASCII literals, so the encoding of other characters plays no role;
  \<^item> a JavaScript number is a \<open>js_number\<close>: a double-precision value of IEEE 754, with the
    arithmetic of the language (round to nearest, ties to even).
\<close>

subsection \<open>JavaScript helpers\<close>

text \<open>
  \<^verbatim>\<open>String.prototype.split\<close> with a one-character separator: the pieces between the
  separators, in order; a string without separator (also the empty one) is a single piece.
\<close>

fun js_split :: "char \<Rightarrow> string \<Rightarrow> string list" where
  "js_split sep [] = [[]]"
| "js_split sep (c # cs) =
     (if c = sep then [] # js_split sep cs
      else (case js_split sep cs of
              [] \<Rightarrow> [[c]]
            | w # ws \<Rightarrow> (c # w) # ws))"

text \<open>Reading an array element: \<^verbatim>\<open>undefined\<close> past the end, as array destructuring gives.\<close>

definition element :: "'a list \<Rightarrow> nat \<Rightarrow> 'a option" where
  "element xs i = (if i < length xs then Some (xs ! i) else None)"

text \<open>Truthiness of a nullable string: \<^verbatim>\<open>null\<close>, \<^verbatim>\<open>undefined\<close> and \<^verbatim>\<open>''\<close> are falsy.\<close>

definition truthy :: "string option \<Rightarrow> bool" where
  "truthy s = (case s of None \<Rightarrow> False | Some t \<Rightarrow> t \<noteq> [])"

text \<open>The operator \<^verbatim>\<open>||\<close>: the left operand when it is truthy, the right one otherwise.\<close>

definition js_or :: "string option \<Rightarrow> string option \<Rightarrow> string option" where
  "js_or a b = (if truthy a then a else b)"

subsection \<open>JavaScript numbers\<close>

text \<open>
  A number is a double: not-a-number, an infinity, the negative zero, or \<open>Num q\<close>, the
  finite double of the rational value \<open>q\<close> (\<open>Num 0\<close> is the positive zero). The operations
  below return \<open>Num q\<close> only for values \<open>q\<close> that a double has. The type also holds \<open>Num q\<close>
  for the other rationals, which no request can carry; what is proved for every number
  holds for the doubles among them.
\<close>

datatype js_number = NaN | Infinity | NegInfinity | NegZero | Num rat

definition pow2 :: "int \<Rightarrow> rat" where
  "pow2 e = (if 0 \<le> e then 2 ^ nat e else 1 / 2 ^ nat (- e))"

text \<open>The number of binary digits of a positive integer.\<close>

function bit_length :: "int \<Rightarrow> int" where
  "bit_length n = (if n \<le> 0 then 0 else 1 + bit_length (n div 2))"
  by pat_completeness auto
termination
  by (relation "measure nat") auto

declare bit_length.simps [simp del]

text \<open>For a positive rational \<open>a\<close>, the integer \<open>k\<close> with \<open>2^k \<le> a < 2^(k+1)\<close>.\<close>

definition ilog2 :: "rat \<Rightarrow> int" where
  "ilog2 a =
     (case quotient_of a of
        (n, d) \<Rightarrow>
          (let k = bit_length n - bit_length d
           in if pow2 k \<le> a then k else k - 1))"

definition round_half_even :: "rat \<Rightarrow> int" where
  "round_half_even x =
     (let f = \<lfloor>x\<rfloor>; r = x - of_int f
      in if r < 1 / 2 then f
         else if 1 / 2 < r then f + 1
         else if even f then f else f + 1)"

text \<open>
  The double nearest to a rational, as every arithmetic operation of the language rounds
  its exact result: 53 significant binary digits, no digit below \<open>2^-1074\<close>, ties to the even
  neighbour, an infinity from \<open>2^1024\<close> on, and a zero that keeps the sign.
\<close>

definition round_double :: "rat \<Rightarrow> js_number" where
  "round_double q =
     (if q = 0 then Num 0
      else
        (let a = \<bar>q\<bar>;
             e = max (ilog2 a - 52) (- 1074);
             m = round_half_even (a / pow2 e);
             v = of_int m * pow2 e
         in if m = 0 then (if q < 0 then NegZero else Num 0)
            else if pow2 1024 \<le> v then (if q < 0 then NegInfinity else Infinity)
            else Num (if q < 0 then - v else v)))"

text \<open>The sign of a number, and the value of a finite one.\<close>

definition negative :: "js_number \<Rightarrow> bool" where
  "negative x =
     (case x of NegInfinity \<Rightarrow> True | NegZero \<Rightarrow> True | Num q \<Rightarrow> q < 0 | _ \<Rightarrow> False)"

definition finite_value :: "js_number \<Rightarrow> rat option" where
  "finite_value x = (case x of Num q \<Rightarrow> Some q | NegZero \<Rightarrow> Some 0 | _ \<Rightarrow> None)"

text \<open>The operator \<^verbatim>\<open>-\<close> on numbers.\<close>

definition js_minus :: "js_number \<Rightarrow> js_number \<Rightarrow> js_number" where
  "js_minus x y =
     (if x = NaN \<or> y = NaN then NaN
      else
        (case (finite_value x, finite_value y) of
           (Some a, Some b) \<Rightarrow>
             if a - b = 0 then (if x = NegZero \<and> y = Num 0 then NegZero else Num 0)
             else round_double (a - b)
         | (Some a, None) \<Rightarrow> (if y = Infinity then NegInfinity else Infinity)
         | (None, Some b) \<Rightarrow> x
         | (None, None) \<Rightarrow> (if x = y then NaN else x)))"

text \<open>The operator \<^verbatim>\<open>*\<close> on numbers.\<close>

definition js_times :: "js_number \<Rightarrow> js_number \<Rightarrow> js_number" where
  "js_times x y =
     (if x = NaN \<or> y = NaN then NaN
      else
        (case (finite_value x, finite_value y) of
           (Some a, Some b) \<Rightarrow>
             if a * b = 0 then (if negative x \<noteq> negative y then NegZero else Num 0)
             else round_double (a * b)
         | (Some a, None) \<Rightarrow>
             if a = 0 then NaN
             else if negative x \<noteq> negative y then NegInfinity else Infinity
         | (None, Some b) \<Rightarrow>
             if b = 0 then NaN
             else if negative x \<noteq> negative y then NegInfinity else Infinity
         | (None, None) \<Rightarrow> if negative x \<noteq> negative y then NegInfinity else Infinity))"

text \<open>The integer a number stands for, when it is one.\<close>

definition integer_of :: "js_number \<Rightarrow> int option" where
  "integer_of x =
     (case finite_value x of
        None \<Rightarrow> None
      | Some q \<Rightarrow> if of_int \<lfloor>q\<rfloor> = q then Some \<lfloor>q\<rfloor> else None)"

subsection \<open>parseSortOrder\<close>

text \<open>
  The result is an object with one computed key; objects of this kind are association
  lists of key and value.
\<close>

type_synonym order_by = "(string \<times> string) list"

definition defaultOrder :: order_by where
  "defaultOrder = [(''id'', ''desc'')]"

definition validFields :: "string list" where
  "validFields = [''createdAt'', ''name'', ''size'']"

definition validDirections :: "string list" where
  "validDirections = [''asc'', ''desc'']"

definition parseSortOrder :: "string option \<Rightarrow> order_by" where
  "parseSortOrder sortOrder =
     (case sortOrder of
        None \<Rightarrow> defaultOrder
      | Some s \<Rightarrow>
          if \<not> truthy (Some s) then defaultOrder
          else
            (let parts = js_split CHR '':'' s;
                 field = element parts 0;
                 direction = element parts 1
             in if \<not> truthy field \<or> \<not> truthy direction then defaultOrder
                else
                  (case (field, direction) of
                     (Some f, Some d) \<Rightarrow>
                       if f \<notin> set validFields \<or> d \<notin> set validDirections
                       then defaultOrder
                       else [(f, d)]
                   | _ \<Rightarrow> defaultOrder)))"

text \<open>
  The strings the specification calls valid: an allowed field, a colon, an allowed
  direction, and nothing else.
\<close>

definition spec_valid_sort_orders :: "string list" where
  "spec_valid_sort_orders =
     concat (map (\<lambda>f. map (\<lambda>d. f @ '':'' @ d) validDirections) validFields)"

subsection \<open>Rows of the relational store\<close>

text \<open>
  A file row with the columns the route reads, and \<open>file_id\<close>, the column of the default
  ordering. Time stamps are integers.
\<close>

record file_row =
  file_id :: int
  file_createdAt :: int
  file_hash :: string
  file_ip :: string
  file_name :: string
  file_original :: string
  file_size :: int
  file_type :: string
  file_uuid :: string
  file_isS3 :: bool
  file_isWatched :: bool

record album_row =
  album_uuid :: string
  album_userId :: int
  album_name :: string
  album_description :: "string option"
  album_nsfw :: bool
  album_sortOrder :: "string option"
  album_files :: "file_row list"

text \<open>The table \<^verbatim>\<open>albums\<close>, in the order in which the store enumerates it.\<close>

type_synonym database = "album_row list"

subsection \<open>Request, settings and response\<close>

record request =
  params_uuid :: string
  query_page :: "js_number option"
  query_limit :: "js_number option"
  user_id :: int

text \<open>Of the process-wide \<^verbatim>\<open>SETTINGS\<close> the route reads \<^verbatim>\<open>defaultSortOrder\<close> only.\<close>

record settings =
  defaultSortOrder :: "string option"

datatype js_value = JNull | JBool bool | JNum int | JStr string | JDate int

type_synonym js_object = "string \<rightharpoonup> js_value"

text \<open>The argument object of \<^verbatim>\<open>constructFilePublicLink\<close>.\<close>

record publicLinkArgs =
  req :: request
  fileName :: string
  isS3 :: bool
  isWatched :: bool

text \<open>The object handed to \<^verbatim>\<open>res.send\<close>.\<close>

record response =
  message :: string
  name :: string
  description :: "string option"
  files :: "js_object list"
  isNsfw :: bool
  sortOrder :: "string option"
  count :: nat

text \<open>The pagination options \<^verbatim>\<open>{ take, skip }\<close>.\<close>

record pagination_options =
  take_opt :: js_number
  skip_opt :: js_number

text \<open>
  What a run of the handler does: it replies not-found with a message, it sends a success
  envelope, or a rejection by the database client propagates (the handler catches
  nothing).
\<close>

datatype prisma_error = ValidationError

datatype outcome = NotFound string | Sent response | Threw prisma_error

subsection \<open>The database client\<close>

text \<open>
  The handler reaches the store through the client \<^verbatim>\<open>prisma\<close> (\<^verbatim>\<open>@/structures/database.js\<close>),
  which is not part of the sources. Its two calls are modelled from what the spec says
  about them: an ownership-scoped existence check, and a fetch of the album "with files
  filtered/sorted/paginated, plus a count of total files", where paging "skips" and "takes"
  records.
\<close>

text \<open>The \<^verbatim>\<open>where\<close> clause of both calls: the uuid and the id of the requesting user.\<close>

definition owned_by :: "string \<Rightarrow> int \<Rightarrow> album_row \<Rightarrow> bool" where
  "owned_by uuid userId a = (album_uuid a = uuid \<and> album_userId a = userId)"

record album_meta =
  meta_sortOrder :: "string option"

text \<open>
  Modelled from the spec: the client's \<^verbatim>\<open>findFirst\<close> is missing. The first call (lines 71 to
  79) yields the selected \<^verbatim>\<open>sortOrder\<close> of the first row that satisfies the \<^verbatim>\<open>where\<close> clause,
  or \<^verbatim>\<open>null\<close> when there is none.
\<close>

definition findFirst_meta :: "database \<Rightarrow> string \<Rightarrow> int \<Rightarrow> album_meta option" where
  "findFirst_meta db uuid userId =
     map_option (\<lambda>a. \<lparr>meta_sortOrder = album_sortOrder a\<rparr>) (find (owned_by uuid userId) db)"

text \<open>
  Modelled from the spec: the client's \<^verbatim>\<open>orderBy\<close> is missing. An object with one key sorts
  the files by that column, ascending, or in the reverse order for \<^verbatim>\<open>desc\<close>; the order
  among equal keys is the store's, here that of a stable sort. The client's types admit no
  other key and no other shape, for which the rows are left as they are.
\<close>

definition order_files :: "order_by \<Rightarrow> file_row list \<Rightarrow> file_row list" where
  "order_files orderBy fs =
     (case orderBy of
        [(k, d)] \<Rightarrow>
          (let ascending =
                 (if k = ''createdAt'' then sort_key file_createdAt fs
                  else if k = ''name'' then sort_key file_name fs
                  else if k = ''size'' then sort_key file_size fs
                  else if k = ''id'' then sort_key file_id fs
                  else fs)
           in if d = ''desc'' then rev ascending else ascending)
      | _ \<Rightarrow> fs)"

text \<open>
  Modelled from the spec: the client's reading of \<^verbatim>\<open>take\<close> and \<^verbatim>\<open>skip\<close> is missing. Both
  count records, so the client takes them only when they are integers, and it rejects a
  negative \<^verbatim>\<open>skip\<close>; the result is the pair of take and skip.
\<close>

definition integer_window :: "pagination_options \<Rightarrow> (int \<times> int) option" where
  "integer_window opts =
     (case (integer_of (take_opt opts), integer_of (skip_opt opts)) of
        (Some tk, Some sk) \<Rightarrow> if sk < 0 then None else Some (tk, sk)
      | _ \<Rightarrow> None)"

text \<open>
  Modelled from the spec: the client's \<^verbatim>\<open>skip\<close> and \<^verbatim>\<open>take\<close> are missing. \<^verbatim>\<open>skip\<close> drops
  that many rows from the front and \<^verbatim>\<open>take\<close> keeps that many of the rest; a negative
  \<^verbatim>\<open>take\<close> counts from the end of the ordered rows.
\<close>

definition window :: "int \<Rightarrow> int \<Rightarrow> 'a list \<Rightarrow> 'a list" where
  "window tk sk xs =
     (if 0 \<le> tk
      then take (nat tk) (drop (nat sk) xs)
      else rev (take (nat (- tk)) (drop (nat sk) (rev xs))))"

record album_selection =
  sel_name :: string
  sel_description :: "string option"
  sel_nsfw :: bool
  sel_sortOrder :: "string option"
  sel_files :: "file_row list"
  sel_count_files :: nat

text \<open>
  Modelled from the spec: the client's \<^verbatim>\<open>findFirst\<close> is missing. The second call (lines 91
  to 119) yields, for the first row that satisfies the \<^verbatim>\<open>where\<close> clause, the selected
  columns, the ordered files cut to the window, and \<^verbatim>\<open>_count.files\<close>, the number of all
  files of the album whatever the window; \<^verbatim>\<open>null\<close> when there is no such row. The client
  rejects options it cannot take before it reads anything.
\<close>

definition findFirst_album ::
  "database \<Rightarrow> string \<Rightarrow> int \<Rightarrow> order_by \<Rightarrow> pagination_options \<Rightarrow>
     prisma_error + album_selection option" where
  "findFirst_album db uuid userId orderBy opts =
     (case integer_window opts of
        None \<Rightarrow> Inl ValidationError
      | Some (tk, sk) \<Rightarrow>
          Inr (map_option
            (\<lambda>a. \<lparr>sel_name = album_name a,
                  sel_description = album_description a,
                  sel_nsfw = album_nsfw a,
                  sel_sortOrder = album_sortOrder a,
                  sel_files = window tk sk (order_files orderBy (album_files a)),
                  sel_count_files = length (album_files a)\<rparr>)
            (find (owned_by uuid userId) db)))"

subsection \<open>The handler\<close>

text \<open>The selected columns of a file row as the object the client returns.\<close>

definition file_object :: "file_row \<Rightarrow> js_object" where
  "file_object f =
     [''createdAt'' \<mapsto> JDate (file_createdAt f),
      ''hash'' \<mapsto> JStr (file_hash f),
      ''ip'' \<mapsto> JStr (file_ip f),
      ''name'' \<mapsto> JStr (file_name f),
      ''original'' \<mapsto> JStr (file_original f),
      ''size'' \<mapsto> JNum (file_size f),
      ''type'' \<mapsto> JStr (file_type f),
      ''uuid'' \<mapsto> JStr (file_uuid f),
      ''isS3'' \<mapsto> JBool (file_isS3 f),
      ''isWatched'' \<mapsto> JBool (file_isWatched f)]"

text \<open>
  Lines 63 to 68: the pagination options, with the defaults of the destructuring and the
  arithmetic of the language.
\<close>

definition options :: "request \<Rightarrow> pagination_options" where
  "options rq =
     (let page = (case query_page rq of None \<Rightarrow> Num 1 | Some p \<Rightarrow> p);
          limit = (case query_limit rq of None \<Rightarrow> Num 50 | Some l \<Rightarrow> l)
      in \<lparr>take_opt = limit, skip_opt = js_times (js_minus page (Num 1)) limit\<rparr>)"

text \<open>Line 87: album-specific, then global default, then the fallback.\<close>

definition effectiveSortOrder :: "album_meta \<Rightarrow> settings \<Rightarrow> string option" where
  "effectiveSortOrder albumMeta SETTINGS =
     js_or (js_or (meta_sortOrder albumMeta) (defaultSortOrder SETTINGS)) (Some ''createdAt:desc'')"

text \<open>
  Lines 127 to 134: the loop over \<^verbatim>\<open>album.files\<close>, pushing each file spread together with
  its public links; in a spread the keys of the later object win. The function
  \<^verbatim>\<open>constructFilePublicLink\<close> (\<^verbatim>\<open>@/utils/File.js\<close>) is not part of the sources and is a
  parameter.
\<close>

fun push_files ::
  "(publicLinkArgs \<Rightarrow> js_object) \<Rightarrow> request \<Rightarrow> file_row list \<Rightarrow> js_object list \<Rightarrow> js_object list"
where
  "push_files constructFilePublicLink rq [] acc = acc"
| "push_files constructFilePublicLink rq (file # rest) acc =
     push_files constructFilePublicLink rq rest
       (acc @ [file_object file ++
               constructFilePublicLink
                 \<lparr>req = rq, fileName = file_name file,
                  isS3 = file_isS3 file, isWatched = file_isWatched file\<rparr>])"

text \<open>
  The handler (lines 60 to 145). Its two queries are awaited one after the other, so each
  reads the table as it is at that moment: \<open>db1\<close> at the first query and \<open>db2\<close> at the
  second. \<^verbatim>\<open>SETTINGS\<close> and \<^verbatim>\<open>constructFilePublicLink\<close> are parameters.
\<close>

definition run ::
  "settings \<Rightarrow> (publicLinkArgs \<Rightarrow> js_object) \<Rightarrow> database \<Rightarrow> database \<Rightarrow> request \<Rightarrow> outcome"
where
  "run SETTINGS constructFilePublicLink db1 db2 rq =
     (let uuid = params_uuid rq in
      case findFirst_meta db1 uuid (user_id rq) of
        None \<Rightarrow> NotFound ''The album could not be found''
      | Some albumMeta \<Rightarrow>
          (let orderBy = parseSortOrder (effectiveSortOrder albumMeta SETTINGS) in
           case findFirst_album db2 uuid (user_id rq) orderBy (options rq) of
             Inl e \<Rightarrow> Threw e
           | Inr None \<Rightarrow> NotFound ''The album could not be found''
           | Inr (Some album) \<Rightarrow>
               Sent \<lparr>message = ''Successfully retrieved album'',
                     name = sel_name album,
                     description = sel_description album,
                     files = push_files constructFilePublicLink rq (sel_files album) [],
                     isNsfw = sel_nsfw album,
                     sortOrder = sel_sortOrder album,
                     count = sel_count_files album\<rparr>))"

subsection \<open>Example data\<close>

text \<open>
  A small table, a request and settings, at which the theorems below are instantiated:
  one album of user 7 with two files and no sort order of its own, the same album with the
  sort order \<^verbatim>\<open>createdAt:asc\<close>, and the global defaults \<^verbatim>\<open>size:desc\<close> and \<^verbatim>\<open>size:asc\<close>. \<open>example_link\<close> is an arbitrary stand-in for
  \<^verbatim>\<open>constructFilePublicLink\<close>, used in the examples only.
\<close>

definition example_file1 :: file_row where
  "example_file1 =
     \<lparr>file_id = 1, file_createdAt = 100, file_hash = ''h1'', file_ip = ''10.0.0.1'',
      file_name = ''b.png'', file_original = ''cat.png'', file_size = 10,
      file_type = ''image/png'', file_uuid = ''f-1'', file_isS3 = False,
      file_isWatched = False\<rparr>"

definition example_file2 :: file_row where
  "example_file2 =
     \<lparr>file_id = 2, file_createdAt = 50, file_hash = ''h2'', file_ip = ''10.0.0.1'',
      file_name = ''a.png'', file_original = ''dog.png'', file_size = 30,
      file_type = ''image/png'', file_uuid = ''f-2'', file_isS3 = True,
      file_isWatched = False\<rparr>"

definition example_album :: album_row where
  "example_album =
     \<lparr>album_uuid = ''album-1'', album_userId = 7, album_name = ''Holidays'',
      album_description = None, album_nsfw = False, album_sortOrder = None,
      album_files = [example_file1, example_file2]\<rparr>"

definition example_request :: "int \<Rightarrow> js_number option \<Rightarrow> js_number option \<Rightarrow> request" where
  "example_request user page limit =
     \<lparr>params_uuid = ''album-1'', query_page = page, query_limit = limit, user_id = user\<rparr>"

definition example_settings :: settings where
  "example_settings = \<lparr>defaultSortOrder = Some ''size:desc''\<rparr>"

definition example_link :: "publicLinkArgs \<Rightarrow> js_object" where
  "example_link args =
     [''url'' \<mapsto>
        JStr ((if isS3 args then ''https://bucket.example/'' else ''https://host.example/'')
              @ fileName args)]"

definition example_album_sorted :: album_row where
  "example_album_sorted = example_album\<lparr>album_sortOrder := Some ''createdAt:asc''\<rparr>"

definition example_settings_asc :: settings where
  "example_settings_asc = \<lparr>defaultSortOrder = Some ''size:asc''\<rparr>"

text \<open>The two files of the example album as the handler sends them for a request.\<close>

definition example_object1 :: "request \<Rightarrow> js_object" where
  "example_object1 rq =
     file_object example_file1 ++
       example_link \<lparr>req = rq, fileName = ''b.png'', isS3 = False, isWatched = False\<rparr>"

definition example_object2 :: "request \<Rightarrow> js_object" where
  "example_object2 rq =
     file_object example_file2 ++
       example_link \<lparr>req = rq, fileName = ''a.png'', isS3 = True, isWatched = False\<rparr>"


section \<open>Properties of parseSortOrder\<close>

subsection \<open>Splitting at the colon\<close>

lemma js_split_not_Nil: "js_split sep s \<noteq> []"
  by (induction s) (auto split: list.splits)

lemma js_split_ConsD:
  "js_split sep s = w # ws \<Longrightarrow>
     sep \<notin> set w \<and> ((ws = [] \<and> s = w) \<or> (\<exists>t. s = w @ sep # t \<and> js_split sep t = ws))"
proof (induction s arbitrary: w ws)
  case Nil
  then show ?case by simp
next
  case (Cons c cs)
  show ?case
  proof (cases "c = sep")
    case True
    with Cons.prems show ?thesis by auto
  next
    case False
    obtain w' ws' where e: "js_split sep cs = w' # ws'"
      using js_split_not_Nil[of sep cs] by (cases "js_split sep cs") auto
    with False Cons.prems have w: "w = c # w'" "ws = ws'" by auto
    from Cons.IH[OF e] w False show ?thesis by auto
  qed
qed

lemma js_split_single: "sep \<notin> set w \<Longrightarrow> js_split sep w = [w]"
  by (induction w) (auto split: list.splits)

lemma js_split_first: "sep \<notin> set w \<Longrightarrow> js_split sep (w @ sep # t) = w # js_split sep t"
  by (induction w) (auto split: list.splits simp: js_split_not_Nil)

lemma valid_without_colon:
  "f \<in> set validFields \<Longrightarrow> CHR '':'' \<notin> set f"
  "d \<in> set validDirections \<Longrightarrow> CHR '':'' \<notin> set d"
  by (auto simp: validFields_def validDirections_def)

lemma valid_not_empty:
  "f \<in> set validFields \<Longrightarrow> f \<noteq> []"
  "d \<in> set validDirections \<Longrightarrow> d \<noteq> []"
  by (auto simp: validFields_def validDirections_def)

subsection \<open>The three kinds of input\<close>

lemma parseSortOrder_exact:
  assumes "f \<in> set validFields" "d \<in> set validDirections"
  shows "parseSortOrder (Some (f @ '':'' @ d)) = [(f, d)]"
proof -
  have "js_split CHR '':'' (f @ '':'' @ d) = [f, d]"
    using assms by (simp add: js_split_first js_split_single valid_without_colon)
  then show ?thesis
    using assms by (simp add: parseSortOrder_def truthy_def element_def valid_not_empty)
qed

lemma parseSortOrder_trailing:
  assumes "f \<in> set validFields" "d \<in> set validDirections"
  shows "parseSortOrder (Some (f @ '':'' @ d @ '':'' @ rest)) = [(f, d)]"
proof -
  have "js_split CHR '':'' (f @ '':'' @ d @ '':'' @ rest) = f # d # js_split CHR '':'' rest"
    using assms by (simp add: js_split_first valid_without_colon)
  then show ?thesis
    using assms by (simp add: parseSortOrder_def truthy_def element_def valid_not_empty)
qed

lemma parseSortOrder_shape:
  "parseSortOrder s = defaultOrder \<or>
   (\<exists>str f d ws. s = Some str \<and> js_split CHR '':'' str = f # d # ws \<and>
      f \<in> set validFields \<and> d \<in> set validDirections \<and>
      parseSortOrder s = [(f, d)])"
proof (cases s)
  case None
  then show ?thesis by (simp add: parseSortOrder_def)
next
  case (Some str)
  show ?thesis
  proof (cases "js_split CHR '':'' str")
    case Nil
    then show ?thesis using js_split_not_Nil by blast
  next
    case outer: (Cons f r)
    show ?thesis
    proof (cases r)
      case Nil
      with outer Some show ?thesis
        by (simp add: parseSortOrder_def truthy_def element_def)
    next
      case (Cons d ws)
      with outer Some show ?thesis
        by (simp add: parseSortOrder_def truthy_def element_def)
    qed
  qed
qed

lemma parseSortOrder_otherwise:
  assumes "\<not> (\<exists>f d rest. f \<in> set validFields \<and> d \<in> set validDirections \<and>
             (s = Some (f @ '':'' @ d) \<or> s = Some (f @ '':'' @ d @ '':'' @ rest)))"
  shows "parseSortOrder s = defaultOrder"
proof (rule ccontr)
  assume "parseSortOrder s \<noteq> defaultOrder"
  with parseSortOrder_shape[of s] obtain str f d ws where
    h: "s = Some str" "js_split CHR '':'' str = f # d # ws"
       "f \<in> set validFields" "d \<in> set validDirections"
    by blast
  from js_split_ConsD[OF h(2)] obtain t where
    t: "str = f @ CHR '':'' # t" "js_split CHR '':'' t = d # ws"
    by auto
  from js_split_ConsD[OF t(2)] have "t = d \<or> (\<exists>u. t = d @ CHR '':'' # u)"
    by auto
  with t h assms show False by auto
qed

subsection \<open>Claims about parseSortOrder\<close>

text \<open>
  C2, as stated, fails: the string \<^verbatim>\<open>name:asc:x\<close> is not of the form field, colon, direction
  (it has a third segment), and still parseSortOrder does not return the default
  \<^verbatim>\<open>id desc\<close> for it; it orders by name, ascending.
\<close>

theorem parseSortOrder_extra_segment_counterexample:
  "''name:asc:x'' \<notin> set spec_valid_sort_orders \<and>
   parseSortOrder (Some ''name:asc:x'') = [(''name'', ''asc'')] \<and>
   parseSortOrder (Some ''name:asc:x'') \<noteq> [(''id'', ''desc'')]"
  by (simp add: spec_valid_sort_orders_def validFields_def validDirections_def
        parseSortOrder_def truthy_def element_def)

text \<open>
  C2, amended: only the first two colon-separated segments count. When the input is an
  allowed field (createdAt, name, size), a colon and an allowed direction (asc, desc),
  alone or followed by a colon and any further text, parseSortOrder returns the ordering
  by that field in that direction. For every other input (null, the empty string, a string
  without colon, a field or a direction that is not allowed) it returns the default
  ordering \<^verbatim>\<open>id desc\<close>.
\<close>

theorem parseSortOrder_first_two_segments:
  "(f \<in> set validFields \<and> d \<in> set validDirections \<and>
      (str = f @ '':'' @ d \<or> str = f @ '':'' @ d @ '':'' @ rest)
    \<longrightarrow> parseSortOrder (Some str) = [(f, d)]) \<and>
   (\<not> (\<exists>f d rest. f \<in> set validFields \<and> d \<in> set validDirections \<and>
          (s = Some (f @ '':'' @ d) \<or> s = Some (f @ '':'' @ d @ '':'' @ rest)))
    \<longrightarrow> parseSortOrder s = [(''id'', ''desc'')])"
proof (intro conjI impI)
  assume "f \<in> set validFields \<and> d \<in> set validDirections \<and>
      (str = f @ '':'' @ d \<or> str = f @ '':'' @ d @ '':'' @ rest)"
  then show "parseSortOrder (Some str) = [(f, d)]"
    using parseSortOrder_exact[of f d] parseSortOrder_trailing[of f d rest]
    by auto
next
  assume "\<not> (\<exists>f d rest. f \<in> set validFields \<and> d \<in> set validDirections \<and>
          (s = Some (f @ '':'' @ d) \<or> s = Some (f @ '':'' @ d @ '':'' @ rest)))"
  then have "parseSortOrder s = defaultOrder"
    by (intro parseSortOrder_otherwise)
  then show "parseSortOrder s = [(''id'', ''desc'')]"
    by (simp add: defaultOrder_def)
qed

theorem parseSortOrder_first_two_segments_witness:
  "parseSortOrder (Some ''size:desc:zzz'') = [(''size'', ''desc'')] \<and>
   parseSortOrder (Some ''createdAt:asc'') = [(''createdAt'', ''asc'')] \<and>
   parseSortOrder (Some ''name:up'') = [(''id'', ''desc'')] \<and>
   parseSortOrder None = [(''id'', ''desc'')]"
proof -
  have a: "parseSortOrder (Some ''size:desc:zzz'') = [(''size'', ''desc'')]"
    using parseSortOrder_first_two_segments
            [of "''size''" "''desc''" "''size:desc:zzz''" "''zzz''" None]
    by (simp add: validFields_def validDirections_def)
  have b: "parseSortOrder (Some ''createdAt:asc'') = [(''createdAt'', ''asc'')]"
    using parseSortOrder_first_two_segments
            [of "''createdAt''" "''asc''" "''createdAt:asc''" "[]" None]
    by (simp add: validFields_def validDirections_def)
  have c: "parseSortOrder (Some ''name:up'') = [(''id'', ''desc'')]"
    using parseSortOrder_first_two_segments
            [of "''size''" "''desc''" "[]" "[]" "Some ''name:up''"]
    by (auto simp: validFields_def validDirections_def)
  have d: "parseSortOrder None = [(''id'', ''desc'')]"
    using parseSortOrder_first_two_segments [of "''size''" "''desc''" "[]" "[]" None]
    by simp
  from a b c d show ?thesis by simp
qed

text \<open>
  C9: parseSortOrder is total. For every input, null or undefined (\<open>None\<close>) and every
  string, with or without colons, it returns an object with exactly one key, the key is one
  of id, createdAt, name and size, and its value is asc or desc. Being a function of its
  argument alone, it is deterministic.
\<close>

theorem parseSortOrder_total:
  "\<exists>k v. parseSortOrder s = [(k, v)] \<and>
         k \<in> {''id'', ''createdAt'', ''name'', ''size''} \<and> v \<in> {''asc'', ''desc''}"
proof -
  from parseSortOrder_shape[of s] show ?thesis
  proof
    assume "parseSortOrder s = defaultOrder"
    then show ?thesis by (simp add: defaultOrder_def)
  next
    assume "\<exists>str f d ws. s = Some str \<and> js_split CHR '':'' str = f # d # ws \<and>
      f \<in> set validFields \<and> d \<in> set validDirections \<and>
      parseSortOrder s = [(f, d)]"
    then obtain f d where "f \<in> set validFields" "d \<in> set validDirections"
      "parseSortOrder s = [(f, d)]" by blast
    then show ?thesis
      by (auto simp: validFields_def validDirections_def)
  qed
qed

theorem parseSortOrder_total_witness:
  "\<exists>k v. parseSortOrder (Some ''a:b:c'') = [(k, v)] \<and>
         k \<in> {''id'', ''createdAt'', ''name'', ''size''} \<and> v \<in> {''asc'', ''desc''}"
  using parseSortOrder_total [of "Some ''a:b:c''"] .

section \<open>Properties of the numbers\<close>

lemma bit_length_nonpos: "n \<le> 0 \<Longrightarrow> bit_length n = 0"
  by (simp add: bit_length.simps)

lemma bit_length_pos: "0 < n \<Longrightarrow> bit_length n = 1 + bit_length (n div 2)"
  by (subst bit_length.simps) simp

lemma bit_length_bounds:
  "0 < n \<Longrightarrow> 0 < bit_length n \<and> 2 ^ nat (bit_length n - 1) \<le> n \<and> n < 2 ^ nat (bit_length n)"
proof (induction n rule: bit_length.induct)
  case (1 n)
  show ?case
  proof (cases "n div 2 = 0")
    case True
    with "1.prems" have "n = 1" by presburger
    then show ?thesis by (simp add: bit_length_pos bit_length_nonpos)
  next
    case False
    with "1.prems" have p: "0 < n div 2" by presburger
    from "1.prems" have "\<not> n \<le> 0" by simp
    from "1.IH"[OF this p] have
      ih: "0 < bit_length (n div 2)"
          "2 ^ nat (bit_length (n div 2) - 1) \<le> n div 2"
          "n div 2 < 2 ^ nat (bit_length (n div 2))"
      by simp_all
    have l: "bit_length n = 1 + bit_length (n div 2)"
      using "1.prems" by (rule bit_length_pos)
    have e: "nat (bit_length n - 1) = Suc (nat (bit_length (n div 2) - 1))"
      "nat (bit_length n) = Suc (nat (bit_length (n div 2)))"
      using ih(1) l by simp_all
    from ih(2) have lo: "2 * 2 ^ nat (bit_length (n div 2) - 1) \<le> n" by presburger
    from ih(3) have hi: "n < 2 * 2 ^ nat (bit_length (n div 2))" by presburger
    from lo hi ih(1) l show ?thesis unfolding e by simp
  qed
qed

lemma pow2_nonneg: "0 \<le> e \<Longrightarrow> pow2 e = 2 ^ nat e"
  by (simp add: pow2_def)

lemma pow2_nonpos: "e \<le> 0 \<Longrightarrow> pow2 e = 1 / 2 ^ nat (- e)"
  by (cases "e = 0") (simp_all add: pow2_def)

lemma ilog2_int:
  assumes "0 < n"
  shows "ilog2 (of_int n) = bit_length n - 1"
proof -
  from bit_length_bounds[OF assms] have
    b: "0 < bit_length n" "2 ^ nat (bit_length n - 1) \<le> n"
    by simp_all
  have one: "bit_length 1 = 1"
    by (simp add: bit_length_pos bit_length_nonpos)
  have "(2::rat) ^ nat (bit_length n - 1) = of_int (2 ^ nat (bit_length n - 1))"
    by simp
  also have "\<dots> \<le> of_int n"
    using b(2) by (simp only: of_int_le_iff)
  finally have "pow2 (bit_length n - 1) \<le> of_int n"
    using b(1) by (simp add: pow2_nonneg)
  then show ?thesis
    by (simp add: ilog2_def one Let_def)
qed

lemma round_half_even_int: "round_half_even (of_int z) = z"
  by (simp add: round_half_even_def)

text \<open>Integers below \<open>2^53\<close> in magnitude are doubles: rounding leaves them as they are.\<close>

lemma round_double_int:
  assumes "n \<noteq> 0" "\<bar>n\<bar> < 2 ^ 53"
  shows "round_double (of_int n) = Num (of_int n)"
proof -
  let ?a = "\<bar>n\<bar>"
  let ?L = "bit_length ?a"
  from assms(1) have p: "0 < ?a" by simp
  from bit_length_bounds[OF p] have
    b: "0 < ?L" "2 ^ nat (?L - 1) \<le> ?a" "?a < 2 ^ nat ?L"
    by simp_all
  have L53: "?L \<le> 53"
  proof (rule ccontr)
    assume "\<not> ?L \<le> 53"
    then have "53 \<le> nat (?L - 1)" by simp
    then have "(2::int) ^ 53 \<le> 2 ^ nat (?L - 1)"
      by (intro power_increasing) simp_all
    with b(2) assms(2) show False by linarith
  qed
  have il: "ilog2 \<bar>of_int n\<bar> = ?L - 1"
    using ilog2_int[OF p] by simp
  have e: "max (ilog2 \<bar>of_int n\<bar> - 52) (- 1074) = ?L - 53"
    using b(1) L53 by (simp add: il)
  have pe: "pow2 (?L - 53) = 1 / 2 ^ nat (53 - ?L)"
    using L53 by (simp add: pow2_nonpos)
  have q: "\<bar>of_int n\<bar> / pow2 (?L - 53) = of_int (?a * 2 ^ nat (53 - ?L))"
    by (simp add: pe)
  have m: "round_half_even (\<bar>of_int n\<bar> / pow2 (?L - 53)) = ?a * 2 ^ nat (53 - ?L)"
    unfolding q by (rule round_half_even_int)
  have m0: "?a * 2 ^ nat (53 - ?L) \<noteq> 0"
    using p by simp
  have v: "of_int (?a * 2 ^ nat (53 - ?L)) * pow2 (?L - 53) = (of_int ?a :: rat)"
    by (simp add: pe)
  have "(of_int ?a :: rat) < of_int (2 ^ 53)"
    using assms(2) by (simp only: of_int_less_iff)
  also have "\<dots> \<le> pow2 1024"
    by (simp add: pow2_def)
  finally have small: "\<not> pow2 1024 \<le> (of_int ?a :: rat)" by simp
  have nz: "(of_int n :: rat) \<noteq> 0" using assms(1) by simp
  have s: "(if (of_int n :: rat) < 0 then - of_int ?a else of_int ?a) = (of_int n :: rat)"
    by simp
  show ?thesis
    unfolding round_double_def Let_def e m v
    using nz m0 small s by simp
qed

lemma js_minus_int:
  assumes "\<bar>a - b\<bar> < 2 ^ 53"
  shows "js_minus (Num (of_int a)) (Num (of_int b)) = Num (of_int (a - b))"
proof (cases "a - b = 0")
  case True
  then show ?thesis by (simp add: js_minus_def finite_value_def)
next
  case False
  from round_double_int[OF False assms] False show ?thesis
    by (simp add: js_minus_def finite_value_def)
qed

lemma integer_of_int: "integer_of (Num (of_int n)) = Some n"
  by (simp add: integer_of_def finite_value_def)

lemma integer_of_js_times_int:
  assumes "\<bar>a * b\<bar> < 2 ^ 53"
  shows "integer_of (js_times (Num (of_int a)) (Num (of_int b))) = Some (a * b)"
proof (cases "a * b = 0")
  case True
  then show ?thesis
    by (auto simp: js_times_def finite_value_def integer_of_def)
next
  case False
  then have "js_times (Num (of_int a)) (Num (of_int b)) = round_double (of_int (a * b))"
    by (simp add: js_times_def finite_value_def)
  also have "\<dots> = Num (of_int (a * b))"
    using False assms by (rule round_double_int)
  finally show ?thesis by (simp only: integer_of_int)
qed

lemma js_times_int:
  assumes "a * b \<noteq> 0" "\<bar>a * b\<bar> < 2 ^ 53"
  shows "js_times (Num (of_int a)) (Num (of_int b)) = Num (of_int (a * b))"
proof -
  from assms(1) have "js_times (Num (of_int a)) (Num (of_int b)) = round_double (of_int (a * b))"
    by (simp add: js_times_def finite_value_def)
  also have "\<dots> = Num (of_int (a * b))"
    using assms by (rule round_double_int)
  finally show ?thesis .
qed

text \<open>
  Past \<open>2^53\<close> the product is rounded: \<open>94906267 * 94906267\<close> is \<open>9007199515875289\<close>, which
  lies halfway between two doubles, and the even one is taken.
\<close>

lemma js_times_rounds:
  "js_times (js_minus (Num 94906268) (Num 1)) (Num 94906267) = Num 9007199515875288"
proof -
  have a: "js_minus (Num 94906268) (Num 1) = Num 94906267"
    using js_minus_int[of 94906268 1] by simp
  have b: "bit_length 9007199515875289 = 54"
    by (simp add: bit_length_pos bit_length_nonpos)
  have f: "\<lfloor>(9007199515875289::rat) / 2\<rfloor> = 4503599757937644"
    by (simp add: floor_eq_iff)
  show ?thesis
    unfolding a
    by (simp add: js_times_def finite_value_def round_double_def ilog2_def b f
          bit_length_pos bit_length_nonpos pow2_def round_half_even_def Let_def)
qed

text \<open>A page or a limit with a fraction gives options the client does not take.\<close>

lemma integer_of_half: "integer_of (Num (1 / 2)) = None"
proof -
  have "\<lfloor>(1::rat) / 2\<rfloor> = 0" by (simp add: floor_eq_iff)
  then show ?thesis by (simp add: integer_of_def finite_value_def)
qed

section \<open>Properties of the handler\<close>

subsection \<open>The database client\<close>







lemma find_owned_None:
  "(find (owned_by u i) db = None) = (\<forall>a \<in> set db. \<not> owned_by u i a)"
  by (auto simp: find_None_iff)

subsection \<open>The run, branch by branch\<close>

lemma push_files_map:
  "push_files c rq fs acc =
     acc @ map (\<lambda>file. file_object file ++
                 c \<lparr>req = rq, fileName = file_name file,
                    isS3 = file_isS3 file, isWatched = file_isWatched file\<rparr>) fs"
  by (induction fs arbitrary: acc) simp_all

lemma run_unfold:
  "run S c db1 db2 rq =
     (case find (owned_by (params_uuid rq) (user_id rq)) db1 of
        None \<Rightarrow> NotFound ''The album could not be found''
      | Some a1 \<Rightarrow>
          (case integer_window (options rq) of
             None \<Rightarrow> Threw ValidationError
           | Some (tk, sk) \<Rightarrow>
              (case find (owned_by (params_uuid rq) (user_id rq)) db2 of
                 None \<Rightarrow> NotFound ''The album could not be found''
               | Some a2 \<Rightarrow>
                   Sent \<lparr>message = ''Successfully retrieved album'',
                         name = album_name a2,
                         description = album_description a2,
                         files =
                           map (\<lambda>file. file_object file ++
                                  c \<lparr>req = rq, fileName = file_name file,
                                     isS3 = file_isS3 file, isWatched = file_isWatched file\<rparr>)
                             (window tk sk
                                (order_files
                                   (parseSortOrder
                                      (effectiveSortOrder \<lparr>meta_sortOrder = album_sortOrder a1\<rparr> S))
                                   (album_files a2))),
                         isNsfw = album_nsfw a2,
                         sortOrder = album_sortOrder a2,
                         count = length (album_files a2)\<rparr>)))"
  by (simp add: run_def findFirst_meta_def findFirst_album_def push_files_map Let_def
           split: option.splits prod.splits)


lemma run_Sent:
  assumes "find (owned_by (params_uuid rq) (user_id rq)) db1 = Some a1"
      and "find (owned_by (params_uuid rq) (user_id rq)) db2 = Some a2"
      and "integer_window (options rq) = Some (tk, sk)"
  shows "run S c db1 db2 rq =
           Sent \<lparr>message = ''Successfully retrieved album'',
                 name = album_name a2,
                 description = album_description a2,
                 files =
                   map (\<lambda>file. file_object file ++
                          c \<lparr>req = rq, fileName = file_name file,
                             isS3 = file_isS3 file, isWatched = file_isWatched file\<rparr>)
                     (window tk sk
                        (order_files
                           (parseSortOrder
                              (effectiveSortOrder \<lparr>meta_sortOrder = album_sortOrder a1\<rparr> S))
                           (album_files a2))),
                 isNsfw = album_nsfw a2,
                 sortOrder = album_sortOrder a2,
                 count = length (album_files a2)\<rparr>"
  unfolding run_unfold by (simp add: assms)

lemma run_no_album:
  assumes "\<forall>a \<in> set db1. \<not> owned_by (params_uuid rq) (user_id rq) a"
  shows "run S c db1 db2 rq = NotFound ''The album could not be found''"
proof -
  from assms have "find (owned_by (params_uuid rq) (user_id rq)) db1 = None"
    by (simp add: find_owned_None)
  then show ?thesis by (simp add: run_unfold)
qed

lemma run_NotFoundD:
  assumes "run S c db1 db2 rq = NotFound m"
  shows "m = ''The album could not be found'' \<and>
      (find (owned_by (params_uuid rq) (user_id rq)) db1 = None \<or>
       find (owned_by (params_uuid rq) (user_id rq)) db2 = None)"
  using assms unfolding run_unfold by (simp split: option.splits if_splits prod.splits)

lemma run_ThrewD:
  assumes "run S c db1 db2 rq = Threw e"
  shows "integer_window (options rq) = None"
  using assms unfolding run_unfold by (simp split: option.splits if_splits prod.splits)



subsection \<open>The run on the example data\<close>

lemma example_find:
  "find (owned_by (params_uuid (example_request 7 page limit))
          (user_id (example_request 7 page limit))) [example_album] = Some example_album"
  by (simp add: example_request_def owned_by_def example_album_def)

lemma example_find_sorted:
  "find (owned_by (params_uuid (example_request 7 page limit))
          (user_id (example_request 7 page limit))) [example_album_sorted]
     = Some example_album_sorted"
  by (simp add: example_request_def owned_by_def example_album_def example_album_sorted_def)

lemma example_fields:
  "file_name example_file1 = ''b.png''" "file_isS3 example_file1 = False"
  "file_isWatched example_file1 = False"
  "file_name example_file2 = ''a.png''" "file_isS3 example_file2 = True"
  "file_isWatched example_file2 = False"
  by (simp_all add: example_file1_def example_file2_def)

lemma example_album_fields:
  "album_files example_album = [example_file1, example_file2]"
  "album_sortOrder example_album = None"
  "album_name example_album = ''Holidays''"
  "album_description example_album = None"
  "album_nsfw example_album = False"
  "album_files example_album_sorted = [example_file1, example_file2]"
  "album_sortOrder example_album_sorted = Some ''createdAt:asc''"
  by (simp_all add: example_album_def example_album_sorted_def)

lemma example_order:
  "order_files (parseSortOrder (effectiveSortOrder \<lparr>meta_sortOrder = None\<rparr> example_settings))
     [example_file1, example_file2] = [example_file2, example_file1]"
  by (simp add: effectiveSortOrder_def js_or_def truthy_def example_settings_def
        parseSortOrder_def element_def validFields_def validDirections_def
        order_files_def example_file1_def example_file2_def)

text \<open>The orders that the three sources of the sort order give on the example files.\<close>

lemma example_order_global:
  "order_files (parseSortOrder (effectiveSortOrder \<lparr>meta_sortOrder = None\<rparr> example_settings_asc))
     [example_file1, example_file2] = [example_file1, example_file2]"
  by (simp add: effectiveSortOrder_def js_or_def truthy_def example_settings_asc_def
        parseSortOrder_def element_def validFields_def validDirections_def
        order_files_def example_file1_def example_file2_def)

lemma example_order_album:
  "order_files
     (parseSortOrder
        (effectiveSortOrder \<lparr>meta_sortOrder = Some ''createdAt:asc''\<rparr> example_settings_asc))
     [example_file1, example_file2] = [example_file2, example_file1]"
  by (simp add: effectiveSortOrder_def js_or_def truthy_def example_settings_asc_def
        parseSortOrder_def element_def validFields_def validDirections_def
        order_files_def example_file1_def example_file2_def)

lemma example_order_fallback:
  "order_files
     (parseSortOrder (effectiveSortOrder \<lparr>meta_sortOrder = None\<rparr> \<lparr>defaultSortOrder = None\<rparr>))
     [example_file1, example_file2] = [example_file1, example_file2]"
  by (simp add: effectiveSortOrder_def js_or_def truthy_def
        parseSortOrder_def element_def validFields_def validDirections_def
        order_files_def example_file1_def example_file2_def)

lemma example_options:
  "options (example_request u None None) = \<lparr>take_opt = Num 50, skip_opt = Num 0\<rparr>"
  "options (example_request u (Some (Num 2)) (Some (Num 1))) = \<lparr>take_opt = Num 1, skip_opt = Num 1\<rparr>"
  "options (example_request u (Some (Num 3)) (Some (Num 1))) = \<lparr>take_opt = Num 1, skip_opt = Num 2\<rparr>"
  "options (example_request u (Some (Num 2)) (Some (Num 10)))
     = \<lparr>take_opt = Num 10, skip_opt = Num 10\<rparr>"
  "options (example_request u (Some (Num 0)) (Some (Num 10)))
     = \<lparr>take_opt = Num 10, skip_opt = Num (- 10)\<rparr>"
  using js_minus_int[of 1 1] js_minus_int[of 2 1] js_minus_int[of 3 1] js_minus_int[of 0 1]
    js_times_int[of 1 1] js_times_int[of 2 1] js_times_int[of 1 10] js_times_int[of "- 1" 10]
  by (simp_all add: options_def Let_def example_request_def js_times_def finite_value_def
        negative_def)

lemma example_window:
  "integer_window (options (example_request u None None)) = Some (50, 0)"
  "integer_window (options (example_request u (Some (Num 2)) (Some (Num 1)))) = Some (1, 1)"
  "integer_window (options (example_request u (Some (Num 3)) (Some (Num 1)))) = Some (1, 2)"
  "integer_window (options (example_request u (Some (Num 2)) (Some (Num 10)))) = Some (10, 10)"
  "integer_window (options (example_request u (Some (Num 0)) (Some (Num 10)))) = None"
  using integer_of_int[of 50] integer_of_int[of 0] integer_of_int[of 1] integer_of_int[of 2]
    integer_of_int[of 10] integer_of_int[of "- 10"]
  by (simp_all add: example_options integer_window_def)

lemma example_page:
  "window 50 0 [example_file2, example_file1] = [example_file2, example_file1]"
  "window 50 0 [example_file1, example_file2] = [example_file1, example_file2]"
  "window 1 1 [example_file2, example_file1] = [example_file1]"
  "window 1 1 [example_file1, example_file2] = [example_file2]"
  by (simp_all add: window_def)



lemma example_run_rejected:
  "run example_settings example_link [example_album] [example_album]
     (example_request 7 (Some (Num 0)) (Some (Num 10))) = Threw ValidationError"
  unfolding run_unfold example_find by (simp add: example_window)

lemma example_objects_differ: "example_object1 rq \<noteq> example_object2 rq"
proof
  assume "example_object1 rq = example_object2 rq"
  then have "example_object1 rq ''name'' = example_object2 rq ''name''" by simp
  then show False
    by (simp add: example_object1_def example_object2_def file_object_def example_link_def
          example_fields)
qed

text \<open>A limit with a fraction gives options the client does not take.\<close>

lemma example_run_fraction:
  "run example_settings example_link [example_album] [example_album]
     (example_request 7 None (Some (Num (1 / 2)))) = Threw ValidationError"
proof -
  have "options (example_request 7 None (Some (Num (1 / 2))))
          = \<lparr>take_opt = Num (1 / 2), skip_opt = Num 0\<rparr>"
    using js_minus_int[of 1 1]
    by (simp add: options_def Let_def example_request_def js_times_def finite_value_def
          negative_def)
  then have "integer_window (options (example_request 7 None (Some (Num (1 / 2))))) = None"
    by (simp add: integer_window_def integer_of_half)
  then show ?thesis
    unfolding run_unfold example_find by simp
qed

subsection \<open>Claims about the handler\<close>

text \<open>
  C1: when no row of the albums table matches both the uuid of the request and the id of
  the requesting user, the run replies not-found and sends no success envelope. Not-found
  is the only failure the handler itself produces: whenever it replies not-found, the
  message is the fixed one and one of its two lookups found no owned album; the only other
  outcome that is not a success is a rejection raised by the database client (options it
  does not take), which the handler does not handle.
\<close>

theorem run_not_found:
  "((\<forall>a \<in> set db1. \<not> owned_by (params_uuid rq) (user_id rq) a) \<longrightarrow>
      run S c db1 db2 rq = NotFound ''The album could not be found'' \<and>
      (\<forall>r. run S c db1 db2 rq \<noteq> Sent r)) \<and>
   (\<forall>m. run S c db1 db2 rq = NotFound m \<longrightarrow>
      m = ''The album could not be found'' \<and>
      ((\<forall>a \<in> set db1. \<not> owned_by (params_uuid rq) (user_id rq) a) \<or>
       (\<forall>a \<in> set db2. \<not> owned_by (params_uuid rq) (user_id rq) a))) \<and>
   (\<forall>e. run S c db1 db2 rq = Threw e \<longrightarrow> integer_window (options rq) = None)"
proof (intro conjI allI impI)
  assume "\<forall>a \<in> set db1. \<not> owned_by (params_uuid rq) (user_id rq) a"
  then show "run S c db1 db2 rq = NotFound ''The album could not be found''"
    by (rule run_no_album)
next
  fix r
  assume "\<forall>a \<in> set db1. \<not> owned_by (params_uuid rq) (user_id rq) a"
  then have "run S c db1 db2 rq = NotFound ''The album could not be found''"
    by (rule run_no_album)
  then show "run S c db1 db2 rq \<noteq> Sent r" by simp
next
  fix m
  assume "run S c db1 db2 rq = NotFound m"
  from run_NotFoundD[OF this] show "m = ''The album could not be found''" by simp
next
  fix m
  assume "run S c db1 db2 rq = NotFound m"
  from run_NotFoundD[OF this]
  show "(\<forall>a \<in> set db1. \<not> owned_by (params_uuid rq) (user_id rq) a) \<or>
       (\<forall>a \<in> set db2. \<not> owned_by (params_uuid rq) (user_id rq) a)"
    by (simp add: find_owned_None)
next
  fix e
  assume "run S c db1 db2 rq = Threw e"
  then show "integer_window (options rq) = None" by (rule run_ThrewD)
qed

theorem run_not_found_witness:
  "run example_settings example_link [example_album] [example_album]
     (example_request 8 None None) = NotFound ''The album could not be found'' \<and>
   integer_window (options (example_request 7 (Some (Num 0)) (Some (Num 10)))) = None"
proof -
  have a: "run example_settings example_link [example_album] [example_album]
     (example_request 8 None None) = NotFound ''The album could not be found''"
    using run_not_found [of "[example_album]" "example_request 8 None None"
                          example_settings example_link "[example_album]", THEN conjunct1]
    by (simp add: owned_by_def example_album_def example_request_def)
  have b: "integer_window (options (example_request 7 (Some (Num 0)) (Some (Num 10)))) = None"
    using run_not_found [of "[example_album]" "example_request 7 (Some (Num 0)) (Some (Num 10))"
                          example_settings example_link "[example_album]",
                          THEN conjunct2, THEN conjunct2, rule_format,
                          OF example_run_rejected] .
  from a b show ?thesis by (rule conjI)
qed

text \<open>
  C3: the effective sort order is the album's own sortOrder when that is a non-empty
  string; otherwise the global default \<^verbatim>\<open>SETTINGS.defaultSortOrder\<close> when that is a non-empty
  string; otherwise the hardcoded \<^verbatim>\<open>createdAt:desc\<close>. The handler resolves it from the row of
  its first lookup, parses it and orders the files query by it: whenever both lookups find
  the album and the client takes the pagination options, the run sends an envelope whose
  files are the files of the album in the order parsed from the effective sort order, cut
  to the window.
\<close>

theorem effective_sort_order_precedence:
  "(\<forall>s. meta_sortOrder m = Some s \<and> s \<noteq> [] \<longrightarrow> effectiveSortOrder m S = Some s) \<and>
   ((meta_sortOrder m = None \<or> meta_sortOrder m = Some []) \<longrightarrow>
      (\<forall>g. defaultSortOrder S = Some g \<and> g \<noteq> [] \<longrightarrow> effectiveSortOrder m S = Some g) \<and>
      ((defaultSortOrder S = None \<or> defaultSortOrder S = Some []) \<longrightarrow>
         effectiveSortOrder m S = Some ''createdAt:desc'')) \<and>
   (\<forall>a1 a2 tk sk.
      find (owned_by (params_uuid rq) (user_id rq)) db1 = Some a1 \<and>
      find (owned_by (params_uuid rq) (user_id rq)) db2 = Some a2 \<and>
      integer_window (options rq) = Some (tk, sk) \<longrightarrow>
      (\<exists>r. run S c db1 db2 rq = Sent r \<and>
           files r =
             map (\<lambda>file. file_object file ++
                    c \<lparr>req = rq, fileName = file_name file,
                       isS3 = file_isS3 file, isWatched = file_isWatched file\<rparr>)
               (window tk sk
                  (order_files
                     (parseSortOrder
                        (effectiveSortOrder \<lparr>meta_sortOrder = album_sortOrder a1\<rparr> S))
                     (album_files a2)))))"
proof (intro conjI allI impI)
  fix s assume "meta_sortOrder m = Some s \<and> s \<noteq> []"
  then show "effectiveSortOrder m S = Some s"
    by (simp add: effectiveSortOrder_def js_or_def truthy_def)
next
  fix g assume "meta_sortOrder m = None \<or> meta_sortOrder m = Some []"
    and "defaultSortOrder S = Some g \<and> g \<noteq> []"
  then show "effectiveSortOrder m S = Some g"
    by (auto simp: effectiveSortOrder_def js_or_def truthy_def)
next
  assume "meta_sortOrder m = None \<or> meta_sortOrder m = Some []"
    and "defaultSortOrder S = None \<or> defaultSortOrder S = Some []"
  then show "effectiveSortOrder m S = Some ''createdAt:desc''"
    by (auto simp: effectiveSortOrder_def js_or_def truthy_def)
next
  fix a1 a2 tk sk
  assume h: "find (owned_by (params_uuid rq) (user_id rq)) db1 = Some a1 \<and>
      find (owned_by (params_uuid rq) (user_id rq)) db2 = Some a2 \<and>
      integer_window (options rq) = Some (tk, sk)"
  then have f1: "find (owned_by (params_uuid rq) (user_id rq)) db1 = Some a1"
    and f2: "find (owned_by (params_uuid rq) (user_id rq)) db2 = Some a2"
    and w: "integer_window (options rq) = Some (tk, sk)"
    by simp_all
  show "\<exists>r. run S c db1 db2 rq = Sent r \<and>
           files r =
             map (\<lambda>file. file_object file ++
                    c \<lparr>req = rq, fileName = file_name file,
                       isS3 = file_isS3 file, isWatched = file_isWatched file\<rparr>)
               (window tk sk
                  (order_files
                     (parseSortOrder
                        (effectiveSortOrder \<lparr>meta_sortOrder = album_sortOrder a1\<rparr> S))
                     (album_files a2)))"
    unfolding run_Sent [OF f1 f2 w] by simp
qed

theorem effective_sort_order_precedence_witness:
  "(\<exists>r. run example_settings_asc example_link [example_album_sorted] [example_album_sorted]
          (example_request 7 None None) = Sent r \<and>
        files r = [example_object2 (example_request 7 None None),
                   example_object1 (example_request 7 None None)]) \<and>
   (\<exists>r. run example_settings_asc example_link [example_album] [example_album]
          (example_request 7 None None) = Sent r \<and>
        files r = [example_object1 (example_request 7 None None),
                   example_object2 (example_request 7 None None)]) \<and>
   (\<exists>r. run \<lparr>defaultSortOrder = None\<rparr> example_link [example_album] [example_album]
          (example_request 7 None None) = Sent r \<and>
        files r = [example_object1 (example_request 7 None None),
                   example_object2 (example_request 7 None None)]) \<and>
   effectiveSortOrder \<lparr>meta_sortOrder = Some ''createdAt:asc''\<rparr> example_settings_asc
     = Some ''createdAt:asc'' \<and>
   effectiveSortOrder \<lparr>meta_sortOrder = None\<rparr> example_settings_asc = Some ''size:asc'' \<and>
   effectiveSortOrder \<lparr>meta_sortOrder = Some []\<rparr> \<lparr>defaultSortOrder = None\<rparr>
     = Some ''createdAt:desc'' \<and>
   example_object1 (example_request 7 None None) \<noteq> example_object2 (example_request 7 None None)"
proof -
  let ?rq = "example_request 7 None None"
  note t = effective_sort_order_precedence [where c = example_link and rq = ?rq]
  note own = t [where S = example_settings_asc and ?db1.0 = "[example_album_sorted]"
                  and ?db2.0 = "[example_album_sorted]" and m = "\<lparr>meta_sortOrder = None\<rparr>",
                THEN conjunct2, THEN conjunct2, rule_format,
                OF conjI [OF example_find_sorted conjI [OF example_find_sorted example_window(1)]]]
  note global = t [where S = example_settings_asc and ?db1.0 = "[example_album]"
                     and ?db2.0 = "[example_album]" and m = "\<lparr>meta_sortOrder = None\<rparr>",
                   THEN conjunct2, THEN conjunct2, rule_format,
                   OF conjI [OF example_find conjI [OF example_find example_window(1)]]]
  note fallback = t [where S = "\<lparr>defaultSortOrder = None\<rparr>" and ?db1.0 = "[example_album]"
                       and ?db2.0 = "[example_album]" and m = "\<lparr>meta_sortOrder = None\<rparr>",
                     THEN conjunct2, THEN conjunct2, rule_format,
                     OF conjI [OF example_find conjI [OF example_find example_window(1)]]]
  have a: "\<exists>r. run example_settings_asc example_link [example_album_sorted] [example_album_sorted]
          ?rq = Sent r \<and> files r = [example_object2 ?rq, example_object1 ?rq]"
    using own
    by (simp add: example_album_fields example_order_album example_page example_object1_def
          example_object2_def example_fields)
  have b: "\<exists>r. run example_settings_asc example_link [example_album] [example_album]
          ?rq = Sent r \<and> files r = [example_object1 ?rq, example_object2 ?rq]"
    using global
    by (simp add: example_album_fields example_order_global example_page example_object1_def
          example_object2_def example_fields)
  have c: "\<exists>r. run \<lparr>defaultSortOrder = None\<rparr> example_link [example_album] [example_album]
          ?rq = Sent r \<and> files r = [example_object1 ?rq, example_object2 ?rq]"
    using fallback
    by (simp add: example_album_fields example_order_fallback example_page example_object1_def
          example_object2_def example_fields)
  note u = t [where ?db1.0 = "[]" and ?db2.0 = "[]"]
  have d: "effectiveSortOrder \<lparr>meta_sortOrder = Some ''createdAt:asc''\<rparr> example_settings_asc
             = Some ''createdAt:asc''"
    using u [of "\<lparr>meta_sortOrder = Some ''createdAt:asc''\<rparr>" example_settings_asc,
             THEN conjunct1]
    by simp
  have e: "effectiveSortOrder \<lparr>meta_sortOrder = None\<rparr> example_settings_asc = Some ''size:asc''"
    using u [of "\<lparr>meta_sortOrder = None\<rparr>" example_settings_asc,
             THEN conjunct2, THEN conjunct1]
    by (simp add: example_settings_asc_def)
  have f: "effectiveSortOrder \<lparr>meta_sortOrder = Some []\<rparr> \<lparr>defaultSortOrder = None\<rparr>
             = Some ''createdAt:desc''"
    using u [of "\<lparr>meta_sortOrder = Some []\<rparr>" "\<lparr>defaultSortOrder = None\<rparr>",
             THEN conjunct2, THEN conjunct1]
    by simp
  note g = example_objects_differ [of ?rq]
  from a b c d e f g show ?thesis by (intro conjI)
qed

text \<open>
  C4: the pagination options are take = limit and skip = (page - 1) * limit, computed with
  the arithmetic of the language, where page is 1 and limit is 50 when the query does not
  give them. When page and limit are integers and neither page - 1 nor the product reaches
  \<open>2^53\<close> in magnitude, nothing is rounded and skip is the integer (page - 1) * limit. For
  page 2 and limit 10 the options are take 10 and skip 10, a window that drops ten rows and
  keeps the next ten. These options are what the files fetch is given: whenever both
  lookups find the album and the client takes them, the run sends the ordered files of the
  album cut to that window.
\<close>

theorem pagination_options:
  "options rq =
     \<lparr>take_opt = (case query_limit rq of None \<Rightarrow> Num 50 | Some l \<Rightarrow> l),
      skip_opt = js_times
                   (js_minus (case query_page rq of None \<Rightarrow> Num 1 | Some p \<Rightarrow> p) (Num 1))
                   (case query_limit rq of None \<Rightarrow> Num 50 | Some l \<Rightarrow> l)\<rparr> \<and>
   (\<forall>p l.
      (case query_page rq of None \<Rightarrow> Num 1 | Some p \<Rightarrow> p) = Num (of_int p) \<and>
      (case query_limit rq of None \<Rightarrow> Num 50 | Some l \<Rightarrow> l) = Num (of_int l) \<and>
      \<bar>p - 1\<bar> < 2 ^ 53 \<and> \<bar>(p - 1) * l\<bar> < 2 ^ 53 \<longrightarrow>
      take_opt (options rq) = Num (of_int l) \<and>
      integer_of (skip_opt (options rq)) = Some ((p - 1) * l)) \<and>
   (query_page rq = Some (Num 2) \<and> query_limit rq = Some (Num 10) \<longrightarrow>
      options rq = \<lparr>take_opt = Num 10, skip_opt = Num 10\<rparr> \<and>
      integer_window (options rq) = Some (10, 10) \<and>
      (\<forall>xs :: file_row list. window 10 10 xs = take 10 (drop 10 xs))) \<and>
   (\<forall>a1 a2 tk sk.
      find (owned_by (params_uuid rq) (user_id rq)) db1 = Some a1 \<and>
      find (owned_by (params_uuid rq) (user_id rq)) db2 = Some a2 \<and>
      integer_window
        \<lparr>take_opt = (case query_limit rq of None \<Rightarrow> Num 50 | Some l \<Rightarrow> l),
         skip_opt = js_times
                      (js_minus (case query_page rq of None \<Rightarrow> Num 1 | Some p \<Rightarrow> p) (Num 1))
                      (case query_limit rq of None \<Rightarrow> Num 50 | Some l \<Rightarrow> l)\<rparr>
        = Some (tk, sk) \<longrightarrow>
      (\<exists>r. run S c db1 db2 rq = Sent r \<and>
           files r =
             map (\<lambda>file. file_object file ++
                    c \<lparr>req = rq, fileName = file_name file,
                       isS3 = file_isS3 file, isWatched = file_isWatched file\<rparr>)
               (window tk sk
                  (order_files
                     (parseSortOrder
                        (effectiveSortOrder \<lparr>meta_sortOrder = album_sortOrder a1\<rparr> S))
                     (album_files a2)))))"
proof -
  let ?P = "case query_page rq of None \<Rightarrow> Num 1 | Some p \<Rightarrow> p"
  let ?L = "case query_limit rq of None \<Rightarrow> Num 50 | Some l \<Rightarrow> l"
  have o: "options rq = \<lparr>take_opt = ?L, skip_opt = js_times (js_minus ?P (Num 1)) ?L\<rparr>"
    by (simp add: options_def Let_def)
  have x: "take_opt (options rq) = Num (of_int l) \<and>
           integer_of (skip_opt (options rq)) = Some ((p - 1) * l)"
    if h: "?P = Num (of_int p) \<and> ?L = Num (of_int l) \<and>
           \<bar>p - 1\<bar> < 2 ^ 53 \<and> \<bar>(p - 1) * l\<bar> < 2 ^ 53" for p l
  proof -
    from h have P: "?P = Num (of_int p)" and L: "?L = Num (of_int l)"
      and b1: "\<bar>p - 1\<bar> < 2 ^ 53" and b2: "\<bar>(p - 1) * l\<bar> < 2 ^ 53"
      by simp_all
    have m: "js_minus (Num (of_int p)) (Num 1) = Num (of_int (p - 1))"
      using js_minus_int [of p 1] b1 by simp
    have "integer_of (js_times (Num (of_int (p - 1))) (Num (of_int l))) = Some ((p - 1) * l)"
      using b2 by (rule integer_of_js_times_int)
    then show ?thesis
      unfolding o P L by (simp add: m)
  qed
  have y: "options rq = \<lparr>take_opt = Num 10, skip_opt = Num 10\<rparr> \<and>
      integer_window (options rq) = Some (10, 10) \<and>
      (\<forall>xs :: file_row list. window 10 10 xs = take 10 (drop 10 xs))"
    if h: "query_page rq = Some (Num 2) \<and> query_limit rq = Some (Num 10)"
  proof -
    have e: "options rq = \<lparr>take_opt = Num 10, skip_opt = Num 10\<rparr>"
      using h js_minus_int [of 2 1] js_times_int [of 1 10] by (simp add: o)
    have w: "integer_window (options rq) = Some (10, 10)"
      unfolding e using integer_of_int [of 10] by (simp add: integer_window_def)
    from e w show ?thesis by (simp add: window_def)
  qed
  have z: "\<exists>r. run S c db1 db2 rq = Sent r \<and>
           files r =
             map (\<lambda>file. file_object file ++
                    c \<lparr>req = rq, fileName = file_name file,
                       isS3 = file_isS3 file, isWatched = file_isWatched file\<rparr>)
               (window tk sk
                  (order_files
                     (parseSortOrder
                        (effectiveSortOrder \<lparr>meta_sortOrder = album_sortOrder a1\<rparr> S))
                     (album_files a2)))"
    if h: "find (owned_by (params_uuid rq) (user_id rq)) db1 = Some a1 \<and>
      find (owned_by (params_uuid rq) (user_id rq)) db2 = Some a2 \<and>
      integer_window \<lparr>take_opt = ?L, skip_opt = js_times (js_minus ?P (Num 1)) ?L\<rparr>
        = Some (tk, sk)" for a1 a2 tk sk
  proof -
    from h have f1: "find (owned_by (params_uuid rq) (user_id rq)) db1 = Some a1"
      and f2: "find (owned_by (params_uuid rq) (user_id rq)) db2 = Some a2"
      and w: "integer_window (options rq) = Some (tk, sk)"
      unfolding o by simp_all
    show ?thesis
      unfolding run_Sent [OF f1 f2 w] by simp
  qed
  show ?thesis
    using o x y z by (intro conjI allI impI) blast+
qed

theorem pagination_options_witness:
  "options (example_request 7 (Some (Num 2)) (Some (Num 10)))
     = \<lparr>take_opt = Num 10, skip_opt = Num 10\<rparr> \<and>
   integer_window (options (example_request 7 (Some (Num 2)) (Some (Num 10)))) = Some (10, 10) \<and>
   skip_opt (options (example_request 7 (Some (Num 94906268)) (Some (Num 94906267))))
     = Num 9007199515875288 \<and>
   integer_of (skip_opt (options (example_request 7 (Some (Num 3)) (Some (Num 1))))) = Some 2 \<and>
   (\<exists>r. run example_settings example_link [example_album] [example_album]
          (example_request 7 (Some (Num 2)) (Some (Num 1))) = Sent r \<and>
        files r = [example_object1 (example_request 7 (Some (Num 2)) (Some (Num 1)))])"
proof -
  note t = pagination_options [where c = example_link and S = example_settings
                                 and ?db1.0 = "[example_album]" and ?db2.0 = "[example_album]"]
  have h: "query_page (example_request 7 (Some (Num 2)) (Some (Num 10))) = Some (Num 2) \<and>
           query_limit (example_request 7 (Some (Num 2)) (Some (Num 10))) = Some (Num 10)"
    by (simp add: example_request_def)
  note u = t [of "example_request 7 (Some (Num 2)) (Some (Num 10))",
              THEN conjunct2, THEN conjunct2, THEN conjunct1, rule_format, OF h]
  from u have a: "options (example_request 7 (Some (Num 2)) (Some (Num 10)))
                    = \<lparr>take_opt = Num 10, skip_opt = Num 10\<rparr>"
    by (rule conjunct1)
  from u have b: "integer_window (options (example_request 7 (Some (Num 2)) (Some (Num 10))))
                    = Some (10, 10)"
    by (rule conjunct2 [THEN conjunct1])
  have c: "skip_opt (options (example_request 7 (Some (Num 94906268)) (Some (Num 94906267))))
             = Num 9007199515875288"
    using t [of "example_request 7 (Some (Num 94906268)) (Some (Num 94906267))", THEN conjunct1]
    by (simp add: example_request_def js_times_rounds)
  have g: "(case query_page (example_request 7 (Some (Num 3)) (Some (Num 1))) of
              None \<Rightarrow> Num 1 | Some p \<Rightarrow> p) = Num (of_int 3) \<and>
           (case query_limit (example_request 7 (Some (Num 3)) (Some (Num 1))) of
              None \<Rightarrow> Num 50 | Some l \<Rightarrow> l) = Num (of_int 1) \<and>
           \<bar>(3::int) - 1\<bar> < 2 ^ 53 \<and> \<bar>((3::int) - 1) * 1\<bar> < 2 ^ 53"
    by (simp add: example_request_def)
  from t [of "example_request 7 (Some (Num 3)) (Some (Num 1))",
          THEN conjunct2, THEN conjunct1, rule_format, OF g]
  have d: "integer_of (skip_opt (options (example_request 7 (Some (Num 3)) (Some (Num 1)))))
             = Some 2"
    by simp
  have w: "integer_window
             \<lparr>take_opt = (case query_limit (example_request 7 (Some (Num 2)) (Some (Num 1))) of
                            None \<Rightarrow> Num 50 | Some l \<Rightarrow> l),
              skip_opt = js_times
                (js_minus (case query_page (example_request 7 (Some (Num 2)) (Some (Num 1))) of
                             None \<Rightarrow> Num 1 | Some p \<Rightarrow> p) (Num 1))
                (case query_limit (example_request 7 (Some (Num 2)) (Some (Num 1))) of
                   None \<Rightarrow> Num 50 | Some l \<Rightarrow> l)\<rparr> = Some (1, 1)"
    using example_window(2) [of 7]
          t [of "example_request 7 (Some (Num 2)) (Some (Num 1))", THEN conjunct1]
    by simp
  from t [of "example_request 7 (Some (Num 2)) (Some (Num 1))",
          THEN conjunct2, THEN conjunct2, THEN conjunct2, rule_format,
          OF conjI [OF example_find conjI [OF example_find w]]]
  have e: "\<exists>r. run example_settings example_link [example_album] [example_album]
          (example_request 7 (Some (Num 2)) (Some (Num 1))) = Sent r \<and>
        files r = [example_object1 (example_request 7 (Some (Num 2)) (Some (Num 1)))]"
    by (simp add: example_album_fields example_order example_page example_object1_def
          example_fields)
  from a b c d e show ?thesis by (intro conjI)
qed











end
